theory Spec2Isabelle
  imports Main "HOL-Library.AList"
begin

section \<open>HoneyPipe: values, contexts and the world\<close>

text \<open>
  The context of a pipeline is a Python \<open>dict\<close> from strings to values. A dict is an
  object: the steps receive a reference to it and mutate it in place, so the model keeps the
  dicts in a store indexed by address and passes the address. A dict keeps its keys in
  insertion order, and an assignment \<open>d[k] = v\<close> replaces the value of a key in place or
  appends the key: that is \<open>AList.update\<close> on an association list.
\<close>

type_synonym addr = nat

datatype val =
    VNone
  | VBool bool
  | VInt int
  | VStr string
  | VDict addr
  | VCoroutine

type_synonym dict = "(string \<times> val) list"

type_synonym store = "addr \<Rightarrow> dict"

type_synonym kwargs = "(string \<times> val) list"

text \<open>
  The trace records every call of a function supplied by the user: its name, the positional
  arguments and the keyword arguments of the call. User code works on the store only, so it
  cannot alter the trace.
\<close>

datatype event = Call string "val list" kwargs

record world =
  store :: store
  trace :: "event list"

datatype error = TypeError | KeyError string | Raised string

text \<open>
  A call returns a value or raises; in both cases the world is the one the call left behind,
  since nothing undoes the mutations made before a \<open>raise\<close>.
\<close>

type_synonym outcome = "(error + val) \<times> world"

type_synonym 'a body = "'a \<Rightarrow> store \<Rightarrow> (error + val) \<times> store"

definition run :: "'a body \<Rightarrow> 'a \<Rightarrow> world \<Rightarrow> outcome" where
  "run b x w = (case b x (store w) of (r, s') \<Rightarrow> (r, w\<lparr>store := s'\<rparr>))"

definition record_call :: "event \<Rightarrow> world \<Rightarrow> world" where
  "record_call ev w = w\<lparr>trace := trace w @ [ev]\<rparr>"

text \<open>Python's truth value of an object, as \<open>if x:\<close> tests it.\<close>

fun truthy :: "store \<Rightarrow> val \<Rightarrow> bool" where
  "truthy s VNone = False"
| "truthy s (VBool b) = b"
| "truthy s (VInt i) = (i \<noteq> 0)"
| "truthy s (VStr x) = (x \<noteq> [])"
| "truthy s (VDict a) = (s a \<noteq> [])"
| "truthy s VCoroutine = True"

section \<open>Callables\<close>

text \<open>
  A predicate is user code of one argument, the context. It is meant to be pure, which the
  code does not enforce: the model lets it change the store and raise.
\<close>

type_synonym predicate = "addr body"

definition eval_pred :: "predicate \<Rightarrow> addr \<Rightarrow> world \<Rightarrow> outcome" where
  "eval_pred predicate d w = run predicate d w"

text \<open>
  A user function of one argument \<open>d\<close>, written with \<open>def\<close> or \<open>async def\<close>
  (\<open>is_async\<close>). Its body runs on the store.
\<close>

record pyfunc =
  fname :: string
  is_async :: bool
  body :: "addr body"

text \<open>
  What \<open>Step\<close>, \<open>_condition\<close> and \<open>conditional_proc\<close> wrap is any callable of one
  argument: a user function, a function made by this module (the wrappers and the lambda of
  \<open>__rshift__\<close>; the flag says whether it is an \<open>async def\<close>, and the function is what its
  body does when it runs), or a \<open>Step\<close> instance.
\<close>

datatype callable =
    Def pyfunc
  | Closure bool "addr \<Rightarrow> world \<Rightarrow> outcome"
  | Step callable

fun iscoroutinefunction :: "callable \<Rightarrow> bool" where
  "iscoroutinefunction (Def f) = is_async f"
| "iscoroutinefunction (Closure a r) = a"
| "iscoroutinefunction (Step f) = False"

text \<open>
  The call \<open>f(d)\<close>. Calling a coroutine function makes a coroutine object and runs nothing
  of its body. Calling a \<open>Step\<close> is \<open>Step.__call__\<close>: it calls \<open>self.f(d)\<close>, drops the
  value and returns \<open>d\<close>.
\<close>

fun call :: "callable \<Rightarrow> addr \<Rightarrow> world \<Rightarrow> outcome" where
  "call (Def f) d w =
     (let w0 = record_call (Call (fname f) [VDict d] []) w
      in if is_async f then (Inr VCoroutine, w0) else run (body f) d w0)"
| "call (Closure a r) d w = (if a then (Inr VCoroutine, w) else r d w)"
| "call (Step f) d w =
     (case call f d w of
        (Inl e, w') \<Rightarrow> (Inl e, w')
      | (Inr v, w') \<Rightarrow> (Inr (VDict d), w'))"

text \<open>
  The expression \<open>await f(d)\<close> in the body of a coroutine: the call, then the coroutine run
  to its end. The wrappers below reach it only where \<open>iscoroutinefunction f\<close> holds; the
  value of any other call is not awaitable, which is a \<open>TypeError\<close>.
\<close>

fun await_call :: "callable \<Rightarrow> addr \<Rightarrow> world \<Rightarrow> outcome" where
  "await_call (Def f) d w =
     (let w0 = record_call (Call (fname f) [VDict d] []) w
      in if is_async f then run (body f) d w0
         else (case run (body f) d w0 of
                 (Inl e, w') \<Rightarrow> (Inl e, w')
               | (Inr v, w') \<Rightarrow> (Inl TypeError, w')))"
| "await_call (Closure a r) d w =
     (if a then r d w
      else (case r d w of
              (Inl e, w') \<Rightarrow> (Inl e, w')
            | (Inr v, w') \<Rightarrow> (Inl TypeError, w')))"
| "await_call (Step f) d w =
     (case call (Step f) d w of
        (Inl e, w') \<Rightarrow> (Inl e, w')
      | (Inr v, w') \<Rightarrow> (Inl TypeError, w'))"

section \<open>The low-level gate \<open>_condition\<close>\<close>

text \<open>
  \<open>_condition(predicate)(func)\<close> is \<open>condition predicate func\<close>: one of the two wrappers,
  chosen by \<open>asyncio.iscoroutinefunction(func)\<close>, and a plain callable, not a \<open>Step\<close>. A
  wrapper whose predicate is false falls off its end and so returns \<open>None\<close>. The names and
  docstrings that \<open>functools.wraps\<close> copies play no part in a call and are left out.
\<close>

definition wrapper :: "predicate \<Rightarrow> callable \<Rightarrow> addr \<Rightarrow> world \<Rightarrow> outcome" where
  "wrapper predicate func d w =
     (case eval_pred predicate d w of
        (Inl e, w1) \<Rightarrow> (Inl e, w1)
      | (Inr b, w1) \<Rightarrow>
          if truthy (store w1) b then call func d w1 else (Inr VNone, w1))"

definition async_wrapper :: "predicate \<Rightarrow> callable \<Rightarrow> addr \<Rightarrow> world \<Rightarrow> outcome" where
  "async_wrapper predicate func d w =
     (case eval_pred predicate d w of
        (Inl e, w1) \<Rightarrow> (Inl e, w1)
      | (Inr b, w1) \<Rightarrow>
          if truthy (store w1) b then await_call func d w1 else (Inr VNone, w1))"

definition condition :: "predicate \<Rightarrow> callable \<Rightarrow> callable" where
  "condition predicate func =
     (if iscoroutinefunction func then Closure True (async_wrapper predicate func)
      else Closure False (wrapper predicate func))"

section \<open>The class \<open>Step\<close>\<close>

text \<open>
  \<open>Step(f)\<close> is the constructor \<open>Step\<close> of \<open>callable\<close> and \<open>Step.__call__\<close> is the
  third equation of \<open>call\<close>. \<open>d >> step\<close> is \<open>Step.__rrshift__\<close>, since a dict has no
  \<open>>>\<close> of its own; a right operand that is not a \<open>Step\<close> has no \<open>__rrshift__\<close>.
\<close>

fun rrshift :: "addr \<Rightarrow> callable \<Rightarrow> world \<Rightarrow> outcome" where
  "rrshift d (Step f) w = call (Step f) d w"
| "rrshift d other w = (Inl TypeError, w)"

text \<open>
  \<open>step1 >> step2\<close> is \<open>Step.__rshift__\<close>, with \<open>self\<close> the left \<open>Step\<close>: the right
  operand is wrapped in a \<open>Step\<close> whatever it is, and the result is a \<open>Step\<close> around the
  lambda that calls both and returns the value of the second call.
\<close>

definition rshift :: "callable \<Rightarrow> callable \<Rightarrow> callable" where
  "rshift self other =
     Step (Closure False (\<lambda>d w.
       case call self d w of
         (Inl e, w1) \<Rightarrow> (Inl e, w1)
       | (Inr v1, w1) \<Rightarrow> call (Step other) d w1))"

section \<open>\<open>conditional_func\<close>: a function that produces a value\<close>

text \<open>
  The wrapped function has a signature: parameters with a name, a kind and perhaps a default.
  Its body runs on the bindings of its named parameters.
\<close>

datatype kind =
    POSITIONAL_ONLY
  | POSITIONAL_OR_KEYWORD
  | VAR_POSITIONAL
  | KEYWORD_ONLY
  | VAR_KEYWORD

record param =
  pname :: string
  pkind :: kind
  pdefault :: "val option"

record kwfunc =
  kname :: string
  kasync :: bool
  kparams :: "param list"
  kbody :: "kwargs body"

text \<open>
  Binding the call \<open>func(**kw)\<close>, which passes keywords only. A parameter that takes a
  keyword gets the keyword's value, else its default, else the call raises \<open>TypeError\<close> for
  the missing argument. A positional-only parameter can only fall back on its default. A
  \<open>*args\<close> parameter is empty and binds nothing here. A keyword that names no parameter is
  collected by a \<open>**kwargs\<close> parameter (kept after the named bindings) and is a
  \<open>TypeError\<close> without one.
\<close>

definition by_keyword :: "param \<Rightarrow> bool" where
  "by_keyword p = (pkind p = POSITIONAL_OR_KEYWORD \<or> pkind p = KEYWORD_ONLY)"

definition bind_param :: "kwargs \<Rightarrow> param \<Rightarrow> error + kwargs" where
  "bind_param kw p =
     (if pkind p = VAR_POSITIONAL \<or> pkind p = VAR_KEYWORD then Inr []
      else case (if by_keyword p then map_of kw (pname p) else None) of
             Some v \<Rightarrow> Inr [(pname p, v)]
           | None \<Rightarrow> (case pdefault p of
                        Some v \<Rightarrow> Inr [(pname p, v)]
                      | None \<Rightarrow> Inl TypeError))"

fun bind_params :: "param list \<Rightarrow> kwargs \<Rightarrow> error + kwargs" where
  "bind_params [] kw = Inr []"
| "bind_params (p # ps) kw =
     (case bind_param kw p of
        Inl e \<Rightarrow> Inl e
      | Inr b \<Rightarrow> (case bind_params ps kw of
                    Inl e \<Rightarrow> Inl e
                  | Inr bs \<Rightarrow> Inr (b @ bs)))"

definition extras :: "param list \<Rightarrow> kwargs \<Rightarrow> kwargs" where
  "extras ps kw = filter (\<lambda>(k, v). k \<notin> set (map pname (filter by_keyword ps))) kw"

definition bind :: "param list \<Rightarrow> kwargs \<Rightarrow> error + kwargs" where
  "bind ps kw =
     (if extras ps kw \<noteq> [] \<and> \<not> list_ex (\<lambda>p. pkind p = VAR_KEYWORD) ps then Inl TypeError
      else case bind_params ps kw of
             Inl e \<Rightarrow> Inl e
           | Inr env \<Rightarrow> Inr (env @ extras ps kw))"

text \<open>
  The call \<open>func(**kw)\<close> and the expression \<open>await func(**kw)\<close>. The arguments are bound
  at the call, also for a coroutine function.
\<close>

definition call_kw :: "kwfunc \<Rightarrow> kwargs \<Rightarrow> world \<Rightarrow> outcome" where
  "call_kw func kw w =
     (let w0 = record_call (Call (kname func) [] kw) w
      in case bind (kparams func) kw of
           Inl e \<Rightarrow> (Inl e, w0)
         | Inr env \<Rightarrow>
             if kasync func then (Inr VCoroutine, w0) else run (kbody func) env w0)"

definition await_call_kw :: "kwfunc \<Rightarrow> kwargs \<Rightarrow> world \<Rightarrow> outcome" where
  "await_call_kw func kw w =
     (let w0 = record_call (Call (kname func) [] kw) w
      in case bind (kparams func) kw of
           Inl e \<Rightarrow> (Inl e, w0)
         | Inr env \<Rightarrow>
             if kasync func then run (kbody func) env w0
             else (case run (kbody func) env w0 of
                     (Inl e, w') \<Rightarrow> (Inl e, w')
                   | (Inr v, w') \<Rightarrow> (Inl TypeError, w')))"

text \<open>\<open>needed\<close>: the names of the parameters of the two kinds the decorator looks at.\<close>

definition needed :: "kwfunc \<Rightarrow> string list" where
  "needed func =
     map pname (filter (\<lambda>p. pkind p = POSITIONAL_OR_KEYWORD \<or> pkind p = KEYWORD_ONLY)
                  (kparams func))"

text \<open>The dict comprehension \<open>{k: d[k] for k in needed if k in d}\<close>.\<close>

fun kwargs_of :: "string list \<Rightarrow> dict \<Rightarrow> kwargs" where
  "kwargs_of [] c = []"
| "kwargs_of (k # ks) c =
     (case map_of c k of
        None \<Rightarrow> kwargs_of ks c
      | Some v \<Rightarrow> (k, v) # kwargs_of ks c)"

text \<open>The assignment \<open>d[k] = v\<close>.\<close>

definition setitem :: "addr \<Rightarrow> string \<Rightarrow> val \<Rightarrow> world \<Rightarrow> world" where
  "setitem d k v w = w\<lparr>store := (store w)(d := AList.update k v (store w d))\<rparr>"

text \<open>
  \<open>if store_return_as: d[store_return_as] = rv\<close>. The test is the truth value of
  \<open>store_return_as\<close>, a string or \<open>None\<close>: \<open>None\<close> and the empty string are false.
\<close>

definition store_return :: "string option \<Rightarrow> addr \<Rightarrow> val \<Rightarrow> world \<Rightarrow> world" where
  "store_return store_return_as d rv w =
     (case store_return_as of
        None \<Rightarrow> w
      | Some k \<Rightarrow> if k \<noteq> [] then setitem d k rv w else w)"

definition sync_gate ::
  "predicate \<Rightarrow> string option \<Rightarrow> kwfunc \<Rightarrow> addr \<Rightarrow> world \<Rightarrow> outcome" where
  "sync_gate predicate store_return_as func d w =
     (case eval_pred predicate d w of
        (Inl e, w1) \<Rightarrow> (Inl e, w1)
      | (Inr b, w1) \<Rightarrow>
          if truthy (store w1) b then
            (case call_kw func (kwargs_of (needed func) (store w1 d)) w1 of
               (Inl e, w2) \<Rightarrow> (Inl e, w2)
             | (Inr rv, w2) \<Rightarrow> (Inr VNone, store_return store_return_as d rv w2))
          else (Inr VNone, w1))"

definition async_gate ::
  "predicate \<Rightarrow> string option \<Rightarrow> kwfunc \<Rightarrow> addr \<Rightarrow> world \<Rightarrow> outcome" where
  "async_gate predicate store_return_as func d w =
     (case eval_pred predicate d w of
        (Inl e, w1) \<Rightarrow> (Inl e, w1)
      | (Inr b, w1) \<Rightarrow>
          if truthy (store w1) b then
            (case await_call_kw func (kwargs_of (needed func) (store w1 d)) w1 of
               (Inl e, w2) \<Rightarrow> (Inl e, w2)
             | (Inr rv, w2) \<Rightarrow> (Inr VNone, store_return store_return_as d rv w2))
          else (Inr VNone, w1))"

text \<open>The default of the parameter \<open>predicate\<close>: \<open>lambda d: True\<close>.\<close>

definition default_predicate :: predicate where
  "default_predicate = (\<lambda>d s. (Inr (VBool True), s))"

definition conditional_func :: "predicate \<Rightarrow> string option \<Rightarrow> kwfunc \<Rightarrow> callable" where
  "conditional_func predicate store_return_as func =
     Step (if kasync func then Closure True (async_gate predicate store_return_as func)
           else Closure False (sync_gate predicate store_return_as func))"

section \<open>\<open>conditional_proc\<close>: a procedure that only mutates the dict\<close>

definition gated :: "predicate \<Rightarrow> callable \<Rightarrow> addr \<Rightarrow> world \<Rightarrow> outcome" where
  "gated predicate func d w =
     (case eval_pred predicate d w of
        (Inl e, w1) \<Rightarrow> (Inl e, w1)
      | (Inr b, w1) \<Rightarrow>
          if truthy (store w1) b then
            (case call func d w1 of
               (Inl e, w2) \<Rightarrow> (Inl e, w2)
             | (Inr v, w2) \<Rightarrow> (Inr VNone, w2))
          else (Inr VNone, w1))"

definition async_gated :: "predicate \<Rightarrow> callable \<Rightarrow> addr \<Rightarrow> world \<Rightarrow> outcome" where
  "async_gated predicate func d w =
     (case eval_pred predicate d w of
        (Inl e, w1) \<Rightarrow> (Inl e, w1)
      | (Inr b, w1) \<Rightarrow>
          if truthy (store w1) b then
            (case await_call func d w1 of
               (Inl e, w2) \<Rightarrow> (Inl e, w2)
             | (Inr v, w2) \<Rightarrow> (Inr VNone, w2))
          else (Inr VNone, w1))"

definition conditional_proc :: "predicate \<Rightarrow> callable \<Rightarrow> callable" where
  "conditional_proc predicate func =
     Step (if iscoroutinefunction func then Closure True (async_gated predicate func)
           else Closure False (gated predicate func))"

section \<open>Example inputs\<close>

text \<open>
  A world whose dicts are all empty, and one whose dict at address 0 is
  \<open>{'x': 3, 'y': 4}\<close>.
\<close>

definition empty_world :: world where
  "empty_world = \<lparr>store = (\<lambda>a. []), trace = []\<rparr>"

definition xy_world :: world where
  "xy_world =
     \<lparr>store = (\<lambda>a. if a = 0 then [(''x'', VInt 3), (''y'', VInt 4)] else []), trace = []\<rparr>"

text \<open>\<open>def mark(d): d['seen'] = True\<close>, and the same as an \<open>async def\<close>.\<close>

definition mark :: pyfunc where
  "mark = \<lparr>fname = ''mark'', is_async = False,
            body = (\<lambda>d s. (Inr VNone, s(d := AList.update ''seen'' (VBool True) (s d))))\<rparr>"

definition amark :: pyfunc where
  "amark = \<lparr>fname = ''amark'', is_async = True,
             body = (\<lambda>d s. (Inr VNone, s(d := AList.update ''seen'' (VBool True) (s d))))\<rparr>"

text \<open>\<open>def count(d): d['n'] = d.get('n', 0) + 1; return d['n']\<close>\<close>

definition count :: pyfunc where
  "count = \<lparr>fname = ''count'', is_async = False,
             body = (\<lambda>d s. case map_of (s d) ''n'' of
                       None \<Rightarrow> (Inr (VInt 1), s(d := AList.update ''n'' (VInt 1) (s d)))
                     | Some (VInt n) \<Rightarrow>
                         (Inr (VInt (n + 1)), s(d := AList.update ''n'' (VInt (n + 1)) (s d)))
                     | Some v \<Rightarrow> (Inl TypeError, s))\<rparr>"


text \<open>The predicates \<open>lambda d: d['x'] > 0\<close> and \<open>lambda d: False\<close>.\<close>

definition x_positive :: predicate where
  "x_positive = (\<lambda>d s. case map_of (s d) ''x'' of
                   None \<Rightarrow> (Inl (KeyError ''x''), s)
                 | Some (VInt i) \<Rightarrow> (Inr (VBool (0 < i)), s)
                 | Some v \<Rightarrow> (Inl TypeError, s))"

definition never :: predicate where
  "never = (\<lambda>d s. (Inr (VBool False), s))"

text \<open>
  \<open>def sumsq(x, y): return x*x + y*y\<close>, the same with a default \<open>y=0\<close>, and the same as
  an \<open>async def\<close>.
\<close>

definition sumsq_body :: "kwargs body" where
  "sumsq_body = (\<lambda>env s. case (map_of env ''x'', map_of env ''y'') of
                   (Some (VInt a), Some (VInt b)) \<Rightarrow> (Inr (VInt (a * a + b * b)), s)
                 | _ \<Rightarrow> (Inl TypeError, s))"

definition sumsq :: kwfunc where
  "sumsq = \<lparr>kname = ''sumsq'', kasync = False,
             kparams = [\<lparr>pname = ''x'', pkind = POSITIONAL_OR_KEYWORD, pdefault = None\<rparr>,
                        \<lparr>pname = ''y'', pkind = POSITIONAL_OR_KEYWORD, pdefault = None\<rparr>],
             kbody = sumsq_body\<rparr>"

definition sumsq_default :: kwfunc where
  "sumsq_default = \<lparr>kname = ''sumsq'', kasync = False,
             kparams = [\<lparr>pname = ''x'', pkind = POSITIONAL_OR_KEYWORD, pdefault = None\<rparr>,
                        \<lparr>pname = ''y'', pkind = KEYWORD_ONLY, pdefault = Some (VInt 0)\<rparr>],
             kbody = sumsq_body\<rparr>"

definition asumsq :: kwfunc where
  "asumsq = \<lparr>kname = ''asumsq'', kasync = True,
             kparams = [\<lparr>pname = ''x'', pkind = POSITIONAL_OR_KEYWORD, pdefault = None\<rparr>,
                        \<lparr>pname = ''y'', pkind = POSITIONAL_OR_KEYWORD, pdefault = None\<rparr>],
             kbody = sumsq_body\<rparr>"

text \<open>A world whose dict at address 0 is \<open>{'x': 3}\<close>.\<close>

definition x_world :: world where
  "x_world = \<lparr>store = (\<lambda>a. if a = 0 then [(''x'', VInt 3)] else []), trace = []\<rparr>"

section \<open>Basic facts\<close>

lemma trace_run [simp]: "trace (snd (run b x w)) = trace w"
  by (simp add: run_def split: prod.splits)

lemma trace_eval_pred [simp]: "trace (snd (eval_pred p d w)) = trace w"
  by (simp add: eval_pred_def)

lemma call_Step_world: "snd (call (Step f) d w) = snd (call f d w)"
  by (simp split: prod.splits sum.splits)

lemma call_Step_Step: "call (Step (Step f)) d w = call (Step f) d w"
  by (simp split: prod.splits sum.splits)

lemma call_rshift:
  "call (rshift l r) d w =
     (case call l d w of
        (Inl e, w1) \<Rightarrow> (Inl e, w1)
      | (Inr v, w1) \<Rightarrow> call (Step r) d w1)"
  by (simp add: rshift_def split: prod.splits sum.splits)

lemma trace_call_Def:
  "trace (snd (call (Def g) d w)) = trace w @ [Call (fname g) [VDict d] []]"
  by (simp add: Let_def record_call_def)

lemma eval_pred_world:
  assumes "eval_pred p d w = (r, w1)"
  shows "trace w1 = trace w" and "store w1 = store w \<Longrightarrow> w1 = w"
  using assms by (auto simp: eval_pred_def run_def split: prod.splits)


lemma gate_false:
  assumes "eval_pred p d w = (Inr b, w1)" and "\<not> truthy (store w1) b"
  shows "wrapper p func d w = (Inr VNone, w1)"
    and "async_wrapper p func d w = (Inr VNone, w1)"
    and "gated p func d w = (Inr VNone, w1)"
    and "async_gated p func d w = (Inr VNone, w1)"
    and "sync_gate p key kf d w = (Inr VNone, w1)"
    and "async_gate p key kf d w = (Inr VNone, w1)"
  using assms
  by (simp_all add: wrapper_def async_wrapper_def gated_def async_gated_def
        sync_gate_def async_gate_def)

lemma call_conditional_proc_sync:
  "\<not> iscoroutinefunction func \<Longrightarrow> call (conditional_proc p func) d w =
     (case gated p func d w of
        (Inl e, w') \<Rightarrow> (Inl e, w')
      | (Inr v, w') \<Rightarrow> (Inr (VDict d), w'))"
  by (simp add: conditional_proc_def)

lemma call_conditional_func_sync:
  "\<not> kasync kf \<Longrightarrow> call (conditional_func p key kf) d w =
     (case sync_gate p key kf d w of
        (Inl e, w') \<Rightarrow> (Inl e, w')
      | (Inr v, w') \<Rightarrow> (Inr (VDict d), w'))"
  by (simp add: conditional_func_def)

lemma needed_by_keyword: "needed func = map pname (filter by_keyword (kparams func))"
  by (simp add: needed_def by_keyword_def [abs_def])

lemma map_of_kwargs_of:
  "map_of (kwargs_of ks c) k = (if k \<in> set ks then map_of c k else None)"
  by (induction ks) (auto split: option.splits)

lemma keys_kwargs_of:
  "map fst (kwargs_of ks c) = filter (\<lambda>k. k \<in> fst ` set c) ks"
proof (induction ks)
  case Nil
  show ?case by simp
next
  case (Cons k ks)
  show ?case
  proof (cases "map_of c k")
    case None
    then have "k \<notin> fst ` set c" by (simp add: map_of_eq_None_iff)
    with None Cons show ?thesis by simp
  next
    case (Some v)
    then have "k \<in> fst ` set c" by (metis map_of_eq_None_iff option.distinct(1))
    with Some Cons show ?thesis by simp
  qed
qed

lemma values_kwargs_of:
  "(k, v) \<in> set (kwargs_of ks c) \<Longrightarrow> map_of c k = Some v"
  by (induction ks) (auto split: option.splits)

lemma extras_kwargs_of: "extras (kparams func) (kwargs_of (needed func) c) = []"
proof -
  have "fst ` set (kwargs_of (needed func) c) \<subseteq> set (needed func)"
    using keys_kwargs_of [of "needed func" c] by (metis filter_is_subset set_map)
  then show ?thesis
    by (auto simp: extras_def needed_by_keyword filter_empty_conv)
qed

lemma bind_kwargs_of:
  "bind (kparams func) (kwargs_of (needed func) c)
     = bind_params (kparams func) (kwargs_of (needed func) c)"
  by (simp add: bind_def extras_kwargs_of split: sum.splits)

lemma bind_param_absent:
  assumes "q \<in> set (kparams func)" and "by_keyword q" and "pname q \<notin> fst ` set c"
  shows "bind_param (kwargs_of (needed func) c) q
           = (case pdefault q of Some v \<Rightarrow> Inr [(pname q, v)] | None \<Rightarrow> Inl TypeError)"
proof -
  from assms(3) have "map_of c (pname q) = None" by (simp add: map_of_eq_None_iff)
  then have "map_of (kwargs_of (needed func) c) (pname q) = None"
    by (simp add: map_of_kwargs_of)
  with assms(2) show ?thesis
    by (auto simp: bind_param_def by_keyword_def)
qed

lemma bind_param_present:
  assumes "q \<in> set (kparams func)" and "by_keyword q" and "map_of c (pname q) = Some v"
  shows "bind_param (kwargs_of (needed func) c) q = Inr [(pname q, v)]"
proof -
  from assms(1,2) have "pname q \<in> set (needed func)"
    by (auto simp: needed_by_keyword)
  with assms(3) have "map_of (kwargs_of (needed func) c) (pname q) = Some v"
    by (simp add: map_of_kwargs_of)
  with assms(2) show ?thesis
    by (auto simp: bind_param_def by_keyword_def)
qed

lemma bind_params_error: "bind_params ps kw = Inl e \<Longrightarrow> e = TypeError"
  by (induction ps arbitrary: e) (auto simp: bind_param_def split: sum.splits option.splits if_splits)

lemma bind_params_missing:
  assumes "q \<in> set ps" and "bind_param kw q = Inl TypeError"
  shows "bind_params ps kw = Inl TypeError"
  using assms
proof (induction ps)
  case Nil
  then show ?case by simp
next
  case (Cons a ps)
  show ?case
  proof (cases "bind_param kw a")
    case (Inl e)
    then have "e = TypeError"
      by (auto simp: bind_param_def split: option.splits if_splits)
    with Inl show ?thesis by simp
  next
    case (Inr b)
    with Cons have "bind_params ps kw = Inl TypeError" by auto
    with Inr show ?thesis by simp
  qed
qed

lemma trace_call_kw:
  "trace (snd (call_kw func kw w)) = trace w @ [Call (kname func) [] kw]"
  by (simp add: call_kw_def Let_def record_call_def split: sum.splits)

lemma snd_not_awaitable:
  "snd (case r of (Inl e, w') \<Rightarrow> (Inl e, w') | (Inr v, w') \<Rightarrow> (Inl TypeError, w')) = snd r"
  for r :: outcome
  by (cases r) (auto split: sum.splits)

lemma trace_await_call_kw:
  "trace (snd (await_call_kw func kw w)) = trace w @ [Call (kname func) [] kw]"
  by (simp add: await_call_kw_def Let_def record_call_def snd_not_awaitable split: sum.splits)

lemma gate_true:
  assumes "eval_pred p d w = (Inr b, w1)" and "truthy (store w1) b"
  shows "sync_gate p key func d w
           = (case call_kw func (kwargs_of (needed func) (store w1 d)) w1 of
                (Inl e, w2) \<Rightarrow> (Inl e, w2)
              | (Inr rv, w2) \<Rightarrow> (Inr VNone, store_return key d rv w2))"
    and "async_gate p key func d w
           = (case await_call_kw func (kwargs_of (needed func) (store w1 d)) w1 of
                (Inl e, w2) \<Rightarrow> (Inl e, w2)
              | (Inr rv, w2) \<Rightarrow> (Inr VNone, store_return key d rv w2))"
  using assms by (simp_all add: sync_gate_def async_gate_def)

lemma call_kw_missing:
  assumes "q \<in> set (kparams func)" and "by_keyword q" and "pname q \<notin> fst ` set c"
    and "pdefault q = None"
  shows "call_kw func (kwargs_of (needed func) c) w
           = (Inl TypeError, record_call (Call (kname func) [] (kwargs_of (needed func) c)) w)"
    and "await_call_kw func (kwargs_of (needed func) c) w
           = (Inl TypeError, record_call (Call (kname func) [] (kwargs_of (needed func) c)) w)"
proof -
  have "bind_param (kwargs_of (needed func) c) q = Inl TypeError"
    using bind_param_absent [OF assms(1,2,3)] assms(4) by simp
  then have "bind (kparams func) (kwargs_of (needed func) c) = Inl TypeError"
    using bind_params_missing [OF assms(1)] by (simp add: bind_kwargs_of)
  then show "call_kw func (kwargs_of (needed func) c) w
           = (Inl TypeError, record_call (Call (kname func) [] (kwargs_of (needed func) c)) w)"
    and "await_call_kw func (kwargs_of (needed func) c) w
           = (Inl TypeError, record_call (Call (kname func) [] (kwargs_of (needed func) c)) w)"
    by (simp_all add: call_kw_def await_call_kw_def Let_def)
qed

lemma default_predicate_true: "eval_pred default_predicate d w = (Inr (VBool True), w)"
  by (simp add: eval_pred_def run_def default_predicate_def)

lemma stored_under_nonempty_key:
  assumes "eval_pred p d w = (Inr b, w1)" and "truthy (store w1) b" and "\<not> kasync func"
    and "call_kw func (kwargs_of (needed func) (store w1 d)) w1 = (Inr rv, w2)"
    and "k \<noteq> []"
  shows "call (conditional_func p (Some k) func) d w = (Inr (VDict d), setitem d k rv w2)"
    and "map_of (store (setitem d k rv w2) d) k = Some rv"
proof -
  show "call (conditional_func p (Some k) func) d w = (Inr (VDict d), setitem d k rv w2)"
    using assms
    by (simp add: call_conditional_func_sync gate_true [OF assms(1,2)] store_return_def)
  show "map_of (store (setitem d k rv w2) d) k = Some rv"
    by (simp add: setitem_def update_conv')
qed

lemma pass_through_sync:
  assumes "eval_pred p d w = (Inr b, w1)" and "truthy (store w1) b"
  shows "\<not> iscoroutinefunction func \<Longrightarrow>
           call (conditional_proc p func) d w
             = (case call func d w1 of
                  (Inl e, w2) \<Rightarrow> (Inl e, w2)
                | (Inr v, w2) \<Rightarrow> (Inr (VDict d), w2))"
    and "\<not> is_async g \<Longrightarrow>
           trace (snd (call (conditional_proc p (Def g)) d w))
             = trace w @ [Call (fname g) [VDict d] []]"
    and "\<not> kasync kf \<Longrightarrow>
           trace (snd (call (conditional_func p key kf) d w))
             = trace w @ [Call (kname kf) [] (kwargs_of (needed kf) (store w1 d))]"
proof -
  show 1: "call (conditional_proc p func) d w
             = (case call func d w1 of
                  (Inl e, w2) \<Rightarrow> (Inl e, w2)
                | (Inr v, w2) \<Rightarrow> (Inr (VDict d), w2))"
    if "\<not> iscoroutinefunction func" for func
    using that assms
    by (simp add: call_conditional_proc_sync gated_def split: prod.splits sum.splits)
  have w: "snd (case r of (Inl e, w2) \<Rightarrow> (Inl e, w2) | (Inr v, w2) \<Rightarrow> (Inr x, w2)) = snd r"
    for r :: outcome and x
    by (cases r) (auto split: sum.splits)
  show "trace (snd (call (conditional_proc p (Def g)) d w))
             = trace w @ [Call (fname g) [VDict d] []]"
    if "\<not> is_async g"
  proof -
    have "snd (call (conditional_proc p (Def g)) d w) = snd (call (Def g) d w1)"
      using that by (simp only: 1 iscoroutinefunction.simps not_False_eq_True w)
    then show ?thesis
      by (simp only: trace_call_Def eval_pred_world(1) [OF assms(1)])
  qed
  show "trace (snd (call (conditional_func p key kf) d w))
             = trace w @ [Call (kname kf) [] (kwargs_of (needed kf) (store w1 d))]"
    if "\<not> kasync kf"
  proof -
    have "trace (store_return key d rv w2) = trace w2" for rv w2
      by (simp add: store_return_def setitem_def split: option.splits)
    then have "trace (snd (call (conditional_func p key kf) d w))
       = trace (snd (call_kw kf (kwargs_of (needed kf) (store w1 d)) w1))"
      using that
      by (simp add: call_conditional_func_sync gate_true [OF assms] split: prod.splits sum.splits)
    then show ?thesis
      by (simp only: trace_call_kw eval_pred_world(1) [OF assms(1)])
  qed
qed

section \<open>Identity preservation\<close>

text \<open>
  C1. Applying a Step to a context, directly or as \<open>d >> step\<close>, returns a reference to the
  very dict it was given: whatever value comes back is \<open>VDict d\<close> for the address \<open>d\<close>
  passed in, and the application returns exactly when the wrapped callable returns.
\<close>

theorem identity_preservation:
  "(\<forall>r w'. call (Step f) d w = (Inr r, w') \<longrightarrow> r = VDict d)
   \<and> (\<forall>r w'. rrshift d (Step f) w = (Inr r, w') \<longrightarrow> r = VDict d)
   \<and> (\<forall>w'. (\<exists>v. call f d w = (Inr v, w')) \<longleftrightarrow> rrshift d (Step f) w = (Inr (VDict d), w'))"
  by (auto split: prod.splits sum.splits)

theorem identity_preservation_witness:
  "rrshift 0 (Step (Def mark)) empty_world
     = (Inr (VDict 0), snd (call (Def mark) 0 empty_world))
   \<and> store (snd (rrshift 0 (Step (Def mark)) empty_world)) 0 = [(''seen'', VBool True)]"
proof -
  have c: "\<exists>v. call (Def mark) 0 empty_world = (Inr v, snd (call (Def mark) 0 empty_world))"
    by (simp add: mark_def run_def Let_def)
  from identity_preservation [of "Def mark" 0 empty_world] c
  have "rrshift 0 (Step (Def mark)) empty_world
     = (Inr (VDict 0), snd (call (Def mark) 0 empty_world))"
    by blast
  then show ?thesis
    by (simp add: mark_def run_def record_call_def empty_world_def Let_def)
qed

section \<open>Composition\<close>

text \<open>
  C2. Composition is associative: for Steps \<open>a\<close>, \<open>b\<close>, \<open>c\<close>, applying
  \<open>(a >> b) >> c\<close> to a context gives the same outcome (value or error, store and trace of
  calls) as applying \<open>a >> (b >> c)\<close>, and both run \<open>a\<close>, then \<open>b\<close>, then \<open>c\<close>,
  stopping at the first error.
\<close>

theorem composition_associative:
  "call (rshift (rshift (Step a) (Step b)) (Step c)) d w
     = call (rshift (Step a) (rshift (Step b) (Step c))) d w
   \<and> call (rshift (rshift (Step a) (Step b)) (Step c)) d w
     = (case call (Step a) d w of
          (Inl e, w1) \<Rightarrow> (Inl e, w1)
        | (Inr v1, w1) \<Rightarrow>
            (case call (Step b) d w1 of
               (Inl e, w2) \<Rightarrow> (Inl e, w2)
             | (Inr v2, w2) \<Rightarrow> call (Step c) d w2))"
  by (simp add: call_rshift rshift_def split: prod.splits sum.splits)

text \<open>
  C6. Wrapping a Step again changes nothing: as the right operand of \<open>>>\<close>, a Step \<open>s\<close>
  is re-wrapped as \<open>Step(s)\<close>, and the composite still applies \<open>s\<close> once after the left
  operand; for a user function \<open>g\<close> wrapped by \<open>s\<close> the trace gains exactly one call of
  \<open>g\<close> after the left operand returned.
\<close>

theorem idempotent_wrapping:
  "call (Step (Step f)) d w = call (Step f) d w
   \<and> call (rshift (Step a) (Step f)) d w
       = (case call (Step a) d w of
            (Inl e, w1) \<Rightarrow> (Inl e, w1)
          | (Inr v, w1) \<Rightarrow> call (Step f) d w1)
   \<and> (\<forall>v w1. call (Step a) d w = (Inr v, w1) \<longrightarrow>
         trace (snd (call (rshift (Step a) (Step (Def g))) d w))
           = trace w1 @ [Call (fname g) [VDict d] []])"
proof (intro conjI allI impI)
  show "call (Step (Step f)) d w = call (Step f) d w"
    by (rule call_Step_Step)
  show "call (rshift (Step a) (Step f)) d w
       = (case call (Step a) d w of
            (Inl e, w1) \<Rightarrow> (Inl e, w1)
          | (Inr v, w1) \<Rightarrow> call (Step f) d w1)"
    by (simp only: call_rshift call_Step_Step)
next
  fix v w1
  assume l: "call (Step a) d w = (Inr v, w1)"
  have "call (rshift (Step a) (Step (Def g))) d w = call (Step (Step (Def g))) d w1"
    by (simp only: call_rshift l prod.case sum.case)
  then show "trace (snd (call (rshift (Step a) (Step (Def g))) d w))
           = trace w1 @ [Call (fname g) [VDict d] []]"
    by (simp only: call_Step_Step call_Step_world trace_call_Def)
qed

theorem idempotent_wrapping_witness:
  "call (rshift (Step (Def mark)) (Step (Def count))) 0 empty_world
     = call (Step (Def count)) 0 (snd (call (Step (Def mark)) 0 empty_world))
   \<and> trace (snd (call (rshift (Step (Def mark)) (Step (Def count))) 0 empty_world))
     = [Call ''mark'' [VDict 0] [], Call ''count'' [VDict 0] []]
   \<and> store (snd (call (rshift (Step (Def mark)) (Step (Def count))) 0 empty_world)) 0
     = [(''seen'', VBool True), (''n'', VInt 1)]"
proof -
  define w1 where "w1 = snd (call (Step (Def mark)) 0 empty_world)"
  have l: "call (Step (Def mark)) 0 empty_world = (Inr (VDict 0), w1)"
    unfolding w1_def by (simp add: mark_def run_def Let_def)
  have t: "trace w1 = [Call ''mark'' [VDict 0] []]"
    unfolding w1_def by (simp add: mark_def run_def Let_def record_call_def empty_world_def)
  note inst = idempotent_wrapping [of "Def count" 0 empty_world "Def mark" count]
  from inst have "call (rshift (Step (Def mark)) (Step (Def count))) 0 empty_world
       = (case call (Step (Def mark)) 0 empty_world of
            (Inl e, w1) \<Rightarrow> (Inl e, w1)
          | (Inr v, w1) \<Rightarrow> call (Step (Def count)) 0 w1)"
    by blast
  then have A: "call (rshift (Step (Def mark)) (Step (Def count))) 0 empty_world
       = call (Step (Def count)) 0 w1"
    by (simp only: l prod.case sum.case)
  from inst l have "trace (snd (call (rshift (Step (Def mark)) (Step (Def count))) 0 empty_world))
           = trace w1 @ [Call (fname count) [VDict 0] []]"
    by blast
  then have B: "trace (snd (call (rshift (Step (Def mark)) (Step (Def count))) 0 empty_world))
     = [Call ''mark'' [VDict 0] [], Call ''count'' [VDict 0] []]"
    by (simp add: t count_def)
  have C: "store (snd (call (Step (Def count)) 0 w1)) 0 = [(''seen'', VBool True), (''n'', VInt 1)]"
    unfolding w1_def
    by (simp add: mark_def count_def run_def Let_def record_call_def empty_world_def)
  from A B C show ?thesis
    unfolding w1_def by (simp only: simp_thms)
qed

section \<open>Applying a Step\<close>

text \<open>
  C9. \<open>s(d)\<close> calls the wrapped callable once, drops the value it returns, whatever it is,
  and returns \<open>d\<close>; a wrapped coroutine function is called and its coroutine is never run.
\<close>

theorem step_apply_discards:
  "call (Step f) d w
     = (case call f d w of
          (Inl e, w') \<Rightarrow> (Inl e, w')
        | (Inr v, w') \<Rightarrow> (Inr (VDict d), w'))
   \<and> trace (snd (call (Step (Def g)) d w)) = trace w @ [Call (fname g) [VDict d] []]
   \<and> (\<forall>v w'. call f d w = (Inr v, w') \<longrightarrow> call (Step f) d w = (Inr (VDict d), w'))
   \<and> (is_async g \<longrightarrow>
        call (Step (Def g)) d w
          = (Inr (VDict d), record_call (Call (fname g) [VDict d] []) w))"
proof (intro conjI allI impI)
  show "trace (snd (call (Step (Def g)) d w)) = trace w @ [Call (fname g) [VDict d] []]"
    by (simp only: call_Step_world trace_call_Def)
qed (simp_all add: Let_def)

theorem step_apply_discards_witness:
  "call (Step (Def count)) 0 empty_world
     = (Inr (VDict 0), snd (call (Def count) 0 empty_world))
   \<and> fst (call (Def count) 0 empty_world) = Inr (VInt 1)
   \<and> call (Step (Def amark)) 0 empty_world
     = (Inr (VDict 0), \<lparr>store = (\<lambda>a. []), trace = [Call ''amark'' [VDict 0] []]\<rparr>)"
proof -
  define w1 where "w1 = snd (call (Def count) 0 empty_world)"
  have c: "call (Def count) 0 empty_world = (Inr (VInt 1), w1)"
    unfolding w1_def by (simp add: count_def run_def Let_def empty_world_def record_call_def)
  have a: "is_async amark" by (simp add: amark_def)
  note inst = step_apply_discards [of "Def count" 0 empty_world amark]
  from inst c have A: "call (Step (Def count)) 0 empty_world = (Inr (VDict 0), w1)"
    by blast
  from inst a have "call (Step (Def amark)) 0 empty_world
          = (Inr (VDict 0), record_call (Call (fname amark) [VDict 0] []) empty_world)"
    by blast
  then have B: "call (Step (Def amark)) 0 empty_world
     = (Inr (VDict 0), \<lparr>store = (\<lambda>a. []), trace = [Call ''amark'' [VDict 0] []]\<rparr>)"
    by (simp add: amark_def record_call_def empty_world_def)
  from c have C: "fst (call (Def count) 0 empty_world) = Inr (VInt 1)"
    by (simp only: fst_conv)
  from A B C show ?thesis
    unfolding w1_def by (simp only: simp_thms)
qed

section \<open>Gates\<close>

text \<open>
  C4. Gate suppression: when the predicate returns a false value on the context, every
  conditional step (from \<open>_condition\<close>, \<open>conditional_func\<close> or \<open>conditional_proc\<close>)
  returns without calling the wrapped function and without writing anything: the world
  after the step is the world the predicate's own evaluation left, with the same trace of
  calls, so for a predicate that does not touch the store the world is unchanged, output
  key included. A step around a coroutine function does not even evaluate the predicate.
\<close>

theorem gate_suppression:
  assumes "eval_pred p d w = (Inr b, w1)" and "\<not> truthy (store w1) b"
  shows "wrapper p func d w = (Inr VNone, w1)
       \<and> async_wrapper p func d w = (Inr VNone, w1)
       \<and> gated p func d w = (Inr VNone, w1)
       \<and> async_gated p func d w = (Inr VNone, w1)
       \<and> sync_gate p key kf d w = (Inr VNone, w1)
       \<and> async_gate p key kf d w = (Inr VNone, w1)
       \<and> call (Step (condition p func)) d w
           = (Inr (VDict d), if iscoroutinefunction func then w else w1)
       \<and> call (conditional_proc p func) d w
           = (Inr (VDict d), if iscoroutinefunction func then w else w1)
       \<and> call (conditional_func p key kf) d w
           = (Inr (VDict d), if kasync kf then w else w1)
       \<and> trace w1 = trace w
       \<and> (store w1 = store w \<longrightarrow> w1 = w)"
proof -
  note g = gate_false [OF assms]
  have "call (Step (condition p func)) d w
           = (Inr (VDict d), if iscoroutinefunction func then w else w1)"
    by (simp add: condition_def g)
  moreover have "call (conditional_proc p func) d w
           = (Inr (VDict d), if iscoroutinefunction func then w else w1)"
    by (simp add: conditional_proc_def g)
  moreover have "call (conditional_func p key kf) d w
           = (Inr (VDict d), if kasync kf then w else w1)"
    by (simp add: conditional_func_def g)
  ultimately show ?thesis
    using g eval_pred_world [OF assms(1)] by blast
qed

theorem gate_suppression_witness:
  "call (conditional_func never (Some ''hyp'') sumsq) 0 xy_world = (Inr (VDict 0), xy_world)
   \<and> call (conditional_proc never (Def mark)) 0 xy_world = (Inr (VDict 0), xy_world)
   \<and> call (Step (condition never (Def mark))) 0 xy_world = (Inr (VDict 0), xy_world)
   \<and> map_of (store xy_world 0) ''hyp'' = None"
proof -
  have p: "eval_pred never 0 xy_world = (Inr (VBool False), xy_world)"
    by (simp add: eval_pred_def run_def never_def)
  have f: "\<not> truthy (store xy_world) (VBool False)"
    by simp
  have s: "\<not> kasync sumsq" "\<not> iscoroutinefunction (Def mark)"
    by (simp_all add: sumsq_def mark_def)
  from gate_suppression [OF p f, of "Def mark" "Some ''hyp''" sumsq] s
  have "call (conditional_func never (Some ''hyp'') sumsq) 0 xy_world = (Inr (VDict 0), xy_world)"
    and "call (conditional_proc never (Def mark)) 0 xy_world = (Inr (VDict 0), xy_world)"
    and "call (Step (condition never (Def mark))) 0 xy_world = (Inr (VDict 0), xy_world)"
    by (simp_all only: if_False)
  moreover have "map_of (store xy_world 0) ''hyp'' = None"
    by (simp add: xy_world_def)
  ultimately show ?thesis by (simp only: simp_thms)
qed

section \<open>Errors\<close>



section \<open>Binding parameters from the context\<close>

text \<open>
  What the gates of \<open>conditional_func\<close> do when the predicate is true on the context: the
  synchronous gate, and the asynchronous one when its coroutine runs, call the function with
  keyword arguments only, and these are exactly the declared positional-or-keyword and
  keyword-only parameter names that are keys of the context, in the order of the signature,
  each with the value the context holds for it. No keyword is unexpected. A declared
  parameter that is a key gets the context's value; one that is not a key is left out of the
  call and gets its default if it has one; if it has none, the call raises \<open>TypeError\<close>,
  which leaves the gate as it is, the body not run and nothing stored.
\<close>

lemma gate_binding:
  assumes "eval_pred p d w = (Inr b, w1)" and "truthy (store w1) b"
  shows "sync_gate p key func d w
           = (case call_kw func (kwargs_of (needed func) (store w1 d)) w1 of
                (Inl e, w2) \<Rightarrow> (Inl e, w2)
              | (Inr rv, w2) \<Rightarrow> (Inr VNone, store_return key d rv w2))
       \<and> async_gate p key func d w
           = (case await_call_kw func (kwargs_of (needed func) (store w1 d)) w1 of
                (Inl e, w2) \<Rightarrow> (Inl e, w2)
              | (Inr rv, w2) \<Rightarrow> (Inr VNone, store_return key d rv w2))
       \<and> trace (snd (call_kw func (kwargs_of (needed func) (store w1 d)) w1))
           = trace w1 @ [Call (kname func) [] (kwargs_of (needed func) (store w1 d))]
       \<and> trace (snd (await_call_kw func (kwargs_of (needed func) (store w1 d)) w1))
           = trace w1 @ [Call (kname func) [] (kwargs_of (needed func) (store w1 d))]
       \<and> map fst (kwargs_of (needed func) (store w1 d))
           = filter (\<lambda>k. k \<in> fst ` set (store w1 d))
               (map pname (filter (\<lambda>q. pkind q = POSITIONAL_OR_KEYWORD \<or> pkind q = KEYWORD_ONLY)
                  (kparams func)))
       \<and> (\<forall>k v. (k, v) \<in> set (kwargs_of (needed func) (store w1 d))
             \<longrightarrow> map_of (store w1 d) k = Some v)
       \<and> bind (kparams func) (kwargs_of (needed func) (store w1 d))
           = bind_params (kparams func) (kwargs_of (needed func) (store w1 d))
       \<and> (\<forall>q v. q \<in> set (kparams func) \<and> by_keyword q \<and> map_of (store w1 d) (pname q) = Some v
             \<longrightarrow> bind_param (kwargs_of (needed func) (store w1 d)) q = Inr [(pname q, v)])
       \<and> (\<forall>q. q \<in> set (kparams func) \<and> by_keyword q \<and> pname q \<notin> fst ` set (store w1 d)
             \<longrightarrow> bind_param (kwargs_of (needed func) (store w1 d)) q
                   = (case pdefault q of
                        Some v \<Rightarrow> Inr [(pname q, v)]
                      | None \<Rightarrow> Inl TypeError))
       \<and> (\<forall>q. q \<in> set (kparams func) \<and> by_keyword q \<and> pname q \<notin> fst ` set (store w1 d)
               \<and> pdefault q = None
             \<longrightarrow> sync_gate p key func d w
                   = (Inl TypeError,
                      record_call (Call (kname func) [] (kwargs_of (needed func) (store w1 d))) w1)
               \<and> async_gate p key func d w
                   = (Inl TypeError,
                      record_call (Call (kname func) [] (kwargs_of (needed func) (store w1 d))) w1))"
proof -
  note g = gate_true [OF assms]
  have miss: "sync_gate p key func d w
                   = (Inl TypeError,
                      record_call (Call (kname func) [] (kwargs_of (needed func) (store w1 d))) w1)
               \<and> async_gate p key func d w
                   = (Inl TypeError,
                      record_call (Call (kname func) [] (kwargs_of (needed func) (store w1 d))) w1)"
    if "q \<in> set (kparams func) \<and> by_keyword q \<and> pname q \<notin> fst ` set (store w1 d)
               \<and> pdefault q = None" for q
    using that call_kw_missing [of q func "store w1 d" w1] by (simp add: g)
  have keys: "map fst (kwargs_of (needed func) (store w1 d))
           = filter (\<lambda>k. k \<in> fst ` set (store w1 d))
               (map pname (filter (\<lambda>q. pkind q = POSITIONAL_OR_KEYWORD \<or> pkind q = KEYWORD_ONLY)
                  (kparams func)))"
    using keys_kwargs_of [of "needed func" "store w1 d"] by (simp add: needed_def)
  have vals: "\<forall>k v. (k, v) \<in> set (kwargs_of (needed func) (store w1 d))
             \<longrightarrow> map_of (store w1 d) k = Some v"
    using values_kwargs_of by fast
  have present: "\<forall>q v. q \<in> set (kparams func) \<and> by_keyword q
               \<and> map_of (store w1 d) (pname q) = Some v
             \<longrightarrow> bind_param (kwargs_of (needed func) (store w1 d)) q = Inr [(pname q, v)]"
    using bind_param_present by fast
  have absent: "\<forall>q. q \<in> set (kparams func) \<and> by_keyword q
               \<and> pname q \<notin> fst ` set (store w1 d)
             \<longrightarrow> bind_param (kwargs_of (needed func) (store w1 d)) q
                   = (case pdefault q of
                        Some v \<Rightarrow> Inr [(pname q, v)]
                      | None \<Rightarrow> Inl TypeError)"
    using bind_param_absent by fast
  from miss have missing: "\<forall>q. q \<in> set (kparams func) \<and> by_keyword q
               \<and> pname q \<notin> fst ` set (store w1 d) \<and> pdefault q = None
             \<longrightarrow> sync_gate p key func d w
                   = (Inl TypeError,
                      record_call (Call (kname func) [] (kwargs_of (needed func) (store w1 d))) w1)
               \<and> async_gate p key func d w
                   = (Inl TypeError,
                      record_call (Call (kname func) [] (kwargs_of (needed func) (store w1 d))) w1)"
    by (intro allI impI)
  show ?thesis
    by (intro conjI) (rule g trace_call_kw trace_await_call_kw keys vals bind_kwargs_of
        present absent missing)+
qed

lemma gate_binding_example:
  "sync_gate x_positive (Some ''r'') sumsq 0 x_world
     = (Inl TypeError, record_call (Call ''sumsq'' [] [(''x'', VInt 3)]) x_world)
   \<and> fst (sync_gate x_positive (Some ''r'') sumsq_default 0 x_world) = Inr VNone
   \<and> store (snd (sync_gate x_positive (Some ''r'') sumsq_default 0 x_world)) 0
       = [(''x'', VInt 3), (''r'', VInt 9)]
   \<and> trace (snd (sync_gate x_positive (Some ''r'') sumsq_default 0 x_world))
       = [Call ''sumsq'' [] [(''x'', VInt 3)]]"
proof -
  have p: "eval_pred x_positive 0 x_world = (Inr (VBool True), x_world)"
    by (simp add: eval_pred_def run_def x_positive_def x_world_def)
  have t: "truthy (store x_world) (VBool True)"
    by simp
  have kw: "kwargs_of (needed sumsq) (store x_world 0) = [(''x'', VInt 3)]"
    "kwargs_of (needed sumsq_default) (store x_world 0) = [(''x'', VInt 3)]"
    by (simp_all add: needed_def sumsq_def sumsq_default_def x_world_def)
  define y where "y = \<lparr>pname = ''y'', pkind = POSITIONAL_OR_KEYWORD, pdefault = None\<rparr>"
  have q: "y \<in> set (kparams sumsq) \<and> by_keyword y \<and> pname y \<notin> fst ` set (store x_world 0)
             \<and> pdefault y = None"
    by (simp add: y_def sumsq_def by_keyword_def x_world_def)
  note inst = gate_binding [OF p t, of "Some ''r''" sumsq]
  from inst q have "sync_gate x_positive (Some ''r'') sumsq 0 x_world
     = (Inl TypeError,
        record_call (Call (kname sumsq) [] (kwargs_of (needed sumsq) (store x_world 0))) x_world)"
    by blast
  then have A: "sync_gate x_positive (Some ''r'') sumsq 0 x_world
     = (Inl TypeError, record_call (Call ''sumsq'' [] [(''x'', VInt 3)]) x_world)"
    by (simp add: kw) (simp add: sumsq_def)
  note inst' = gate_binding [OF p t, of "Some ''r''" sumsq_default]
  from inst' have "sync_gate x_positive (Some ''r'') sumsq_default 0 x_world
           = (case call_kw sumsq_default (kwargs_of (needed sumsq_default) (store x_world 0)) x_world of
                (Inl e, w2) \<Rightarrow> (Inl e, w2)
              | (Inr rv, w2) \<Rightarrow> (Inr VNone, store_return (Some ''r'') 0 rv w2))"
    by blast
  then have B: "sync_gate x_positive (Some ''r'') sumsq_default 0 x_world
           = (Inr VNone, setitem 0 ''r'' (VInt 9)
                (record_call (Call ''sumsq'' [] [(''x'', VInt 3)]) x_world))"
    by (simp add: kw)
       (simp add: call_kw_def bind_def extras_def bind_param_def by_keyword_def
          sumsq_default_def sumsq_body_def run_def Let_def store_return_def setitem_def
          record_call_def)
  have C: "store (setitem 0 ''r'' (VInt 9)
                (record_call (Call ''sumsq'' [] [(''x'', VInt 3)]) x_world)) 0
            = [(''x'', VInt 3), (''r'', VInt 9)]"
      "trace (setitem 0 ''r'' (VInt 9)
                (record_call (Call ''sumsq'' [] [(''x'', VInt 3)]) x_world))
            = [Call ''sumsq'' [] [(''x'', VInt 3)]]"
    by (simp_all add: setitem_def record_call_def x_world_def)
  from A B C show ?thesis
    by (simp only: fst_conv snd_conv simp_thms)
qed

text \<open>
  The Step that \<open>conditional_func\<close> returns, applied to a context on which the predicate
  is true. Around a synchronous function it makes that one call, with those keyword
  arguments, passes its error on and stores its value. Around a coroutine function it calls
  nothing at all.
\<close>

lemma binding_sync_step:
  assumes "eval_pred p d w = (Inr b, w1)" and "truthy (store w1) b" and "\<not> kasync func"
  shows "call (conditional_func p key func) d w
           = (case call_kw func (kwargs_of (needed func) (store w1 d)) w1 of
                (Inl e, w2) \<Rightarrow> (Inl e, w2)
              | (Inr rv, w2) \<Rightarrow> (Inr (VDict d), store_return key d rv w2))"
    and "trace (snd (call (conditional_func p key func) d w))
           = trace w @ [Call (kname func) [] (kwargs_of (needed func) (store w1 d))]"
    and "q \<in> set (kparams func) \<Longrightarrow> by_keyword q \<Longrightarrow> pname q \<notin> fst ` set (store w1 d)
           \<Longrightarrow> pdefault q = None
           \<Longrightarrow> call (conditional_func p key func) d w
                 = (Inl TypeError,
                    record_call (Call (kname func) [] (kwargs_of (needed func) (store w1 d))) w1)"
proof -
  show 1: "call (conditional_func p key func) d w
           = (case call_kw func (kwargs_of (needed func) (store w1 d)) w1 of
                (Inl e, w2) \<Rightarrow> (Inl e, w2)
              | (Inr rv, w2) \<Rightarrow> (Inr (VDict d), store_return key d rv w2))"
    using assms(3)
    by (simp add: call_conditional_func_sync gate_true [OF assms(1,2)]
          split: prod.splits sum.splits)
  show "trace (snd (call (conditional_func p key func) d w))
           = trace w @ [Call (kname func) [] (kwargs_of (needed func) (store w1 d))]"
    using pass_through_sync(3) [OF assms] .
  show "call (conditional_func p key func) d w
                 = (Inl TypeError,
                    record_call (Call (kname func) [] (kwargs_of (needed func) (store w1 d))) w1)"
    if "q \<in> set (kparams func)" "by_keyword q" "pname q \<notin> fst ` set (store w1 d)"
       "pdefault q = None"
    using call_kw_missing(1) [OF that, of w1] by (simp add: 1)
qed

lemma async_step_calls_nothing:
  "kasync func \<Longrightarrow> call (conditional_func p key func) d w = (Inr (VDict d), w)"
  by (simp add: conditional_func_def)

text \<open>
  C3. Selective parameter binding, at a coroutine function: the step
  \<open>conditional_func(lambda d: d['x'] > 0)\<close> around \<open>async def asumsq(x, y)\<close>, applied to
  \<open>{'x': 3}\<close>, on which the predicate is true, does not call \<open>asumsq\<close> with \<open>x=3\<close>
  and raises nothing for the missing \<open>y\<close>: it returns the dict, untouched, with no call
  made. \<open>Step.__call__\<close> makes the coroutine of the asynchronous gate and drops it. The
  gate's body, if run, makes the call \<open>asumsq(x=3)\<close>, which raises \<open>TypeError\<close>; the
  same step around the synchronous \<open>sumsq\<close> makes the call \<open>sumsq(x=3)\<close> and the
  \<open>TypeError\<close> leaves the step (\<open>binding_sync_step\<close> has the general statement for a
  synchronous function).
\<close>

theorem async_function_never_bound:
  "eval_pred x_positive 0 x_world = (Inr (VBool True), x_world)
   \<and> call (conditional_func x_positive (Some ''r'') asumsq) 0 x_world
     = (Inr (VDict 0), x_world)
   \<and> async_gate x_positive (Some ''r'') asumsq 0 x_world
     = (Inl TypeError, record_call (Call ''asumsq'' [] [(''x'', VInt 3)]) x_world)
   \<and> call (conditional_func x_positive (Some ''r'') sumsq) 0 x_world
     = (Inl TypeError, record_call (Call ''sumsq'' [] [(''x'', VInt 3)]) x_world)"
  by (simp add: conditional_func_def sync_gate_def async_gate_def eval_pred_def needed_def
        call_kw_def await_call_kw_def bind_def extras_def bind_param_def by_keyword_def
        asumsq_def sumsq_def run_def Let_def x_positive_def x_world_def record_call_def)

section \<open>Storing the return value\<close>

text \<open>
  C5. Output storing, at the key \<open>""\<close>: \<open>conditional_func(store_return_as="")\<close> around
  \<open>sumsq\<close>, applied to \<open>{'x': 3, 'y': 4}\<close>, calls \<open>sumsq(x=3, y=4)\<close>, which returns
  25, and stores nothing: the dict is as before. The test \<open>if store_return_as:\<close> takes the
  empty string for no key. With the key \<open>"k"\<close> the same step stores 25 under \<open>"k"\<close>
  (\<open>stored_under_nonempty_key\<close> has the general statement for a non-empty key).
\<close>

theorem empty_key_not_stored:
  "fst (call (conditional_func default_predicate (Some '''') sumsq) 0 xy_world) = Inr (VDict 0)
   \<and> store (snd (call (conditional_func default_predicate (Some '''') sumsq) 0 xy_world)) 0
       = [(''x'', VInt 3), (''y'', VInt 4)]
   \<and> trace (snd (call (conditional_func default_predicate (Some '''') sumsq) 0 xy_world))
       = [Call ''sumsq'' [] [(''x'', VInt 3), (''y'', VInt 4)]]
   \<and> fst (call_kw sumsq [(''x'', VInt 3), (''y'', VInt 4)] xy_world) = Inr (VInt 25)
   \<and> store (snd (call (conditional_func default_predicate (Some ''k'') sumsq) 0 xy_world)) 0
       = [(''x'', VInt 3), (''y'', VInt 4), (''k'', VInt 25)]"
  by (simp add: conditional_func_def sync_gate_def default_predicate_true needed_def
        call_kw_def bind_def extras_def bind_param_def by_keyword_def
        sumsq_def sumsq_body_def run_def Let_def store_return_def setitem_def
        record_call_def xy_world_def)

section \<open>Steps around coroutine functions\<close>

text \<open>
  C8. Gate pass-through, at a coroutine function: the step
  \<open>conditional_proc(lambda d: True)\<close> around \<open>async def amark(d): d['seen'] = True\<close>,
  applied to an empty dict, returns the dict with nothing done: no call of \<open>amark\<close>, no
  key written, the predicate not evaluated. \<open>Step.__call__\<close> calls the asynchronous gate,
  which only makes a coroutine, and never runs it. Running the gate's body would set the key,
  and the same step around the synchronous \<open>mark\<close> does set it (\<open>pass_through_sync\<close> has
  the general statement for a synchronous function: exactly one call).
\<close>

theorem async_step_never_runs:
  "call (conditional_proc default_predicate (Def amark)) 0 empty_world
     = (Inr (VDict 0), empty_world)
   \<and> call (Step (condition default_predicate (Def amark))) 0 empty_world
     = (Inr (VDict 0), empty_world)
   \<and> store (snd (async_gated default_predicate (Def amark) 0 empty_world)) 0
     = [(''seen'', VBool True)]
   \<and> store (snd (call (conditional_proc default_predicate (Def mark)) 0 empty_world)) 0
     = [(''seen'', VBool True)]"
  by (simp add: conditional_proc_def condition_def async_gated_def gated_def
        default_predicate_true amark_def mark_def run_def Let_def record_call_def
        empty_world_def)

text \<open>
  C10. The default predicate, at a coroutine function: the default predicate is true, yet the
  step \<open>conditional_func()\<close> around \<open>async def asumsq(x, y)\<close>, applied to
  \<open>{'x': 3, 'y': 4}\<close>, does not call \<open>asumsq\<close> and, with \<open>store_return_as="r"\<close>, stores
  nothing, while the step around the synchronous \<open>sumsq\<close> calls it once.
\<close>

theorem default_predicate_async_never_invoked:
  "eval_pred default_predicate 0 xy_world = (Inr (VBool True), xy_world)
   \<and> call (conditional_func default_predicate None asumsq) 0 xy_world
     = (Inr (VDict 0), xy_world)
   \<and> call (conditional_func default_predicate (Some ''r'') asumsq) 0 xy_world
     = (Inr (VDict 0), xy_world)
   \<and> trace (snd (call (conditional_func default_predicate None sumsq) 0 xy_world))
     = [Call ''sumsq'' [] [(''x'', VInt 3), (''y'', VInt 4)]]"
  by (simp add: conditional_func_def sync_gate_def default_predicate_true needed_def
        call_kw_def bind_def extras_def bind_param_def by_keyword_def
        asumsq_def sumsq_def sumsq_body_def run_def Let_def store_return_def
        record_call_def xy_world_def)

end
